theory Spec2Isabelle
  imports Complex_Main "HOL-Library.Multiset" "HOL-Library.AList"
begin

section \<open>XplainIQ Channel Readiness Index: the scoring engine of XplainIQLite.py\<close>

text \<open>
  The embedding covers the pure helpers of \<^verbatim>\<open>src/XplainIQLite.py\<close>:
  \<^verbatim>\<open>tier_for\<close>, \<^verbatim>\<open>compute_scores\<close>, \<^verbatim>\<open>derive_strengths_gaps\<close> and
  \<^verbatim>\<open>recommend_actions\<close>, with the tables \<^verbatim>\<open>PILLARS\<close> and \<^verbatim>\<open>TIER_BANDS\<close>.

  Numbers. Answers are Python ints (\<open>int\<close>). Scores are Python floats; they are modelled
  by exact rationals (\<open>rat\<close>), so \<^verbatim>\<open>/\<close> and \<^verbatim>\<open>*\<close> are the exact field operations. A
  division whose divisor can be zero is the fallible \<open>truediv\<close>, so that Python's
  \<^verbatim>\<open>ZeroDivisionError\<close> is a value.

  Where the model is the code. A rational stands for a finite double whose value it is;
  the model has no rounding, no infinity and no nan. For the catalog's two-question
  pillars and answers from 0 to 5 every intermediate value of the code is exact, and the
  model computes the very numbers the code computes. Outside that range the code rounds
  (answers 5 and 6 give 110.00000000000001 where the model has 110), a product beyond the
  largest double is \<^verbatim>\<open>inf\<close>, and the division of two ints raises
  \<^verbatim>\<open>OverflowError\<close> once the quotient is too large for a double (beyond about
  1.8e308 in magnitude). A statement below that reaches beyond the
  exact range says so: it bounds the answers and asserts only order relations that
  rounding and \<^verbatim>\<open>inf\<close> preserve.

  Strings are byte lists; the few non-ASCII characters of the playbook texts are written
  as their UTF-8 bytes.
\<close>

subsection \<open>Python primitives used by the helpers\<close>

datatype py_error = ZeroDivisionError

text \<open>
  \<^verbatim>\<open>a / b\<close> on numbers: raises when the divisor is zero. The quotient is exact;
  the \<^verbatim>\<open>OverflowError\<close> of an int quotient beyond the float range is not a value of
  the model.
\<close>

definition truediv :: "rat \<Rightarrow> rat \<Rightarrow> py_error + rat" where
  "truediv a b = (if b = 0 then Inl ZeroDivisionError else Inr (a / b))"

text \<open>
  \<^verbatim>\<open>round(x)\<close> with one argument, on a finite \<open>x\<close>: the nearest integer, a
  tie going to the even neighbour. On \<^verbatim>\<open>inf\<close> and \<^verbatim>\<open>nan\<close>, which are no
  rationals, Python's \<^verbatim>\<open>round\<close> raises.
\<close>

definition py_round :: "rat \<Rightarrow> int" where
  "py_round x =
     (let f = \<lfloor>x\<rfloor>; d = x - of_int f
      in if d < 1 / 2 then f
         else if 1 / 2 < d then f + 1
         else if even f then f else f + 1)"

text \<open>
  \<^verbatim>\<open>sorted(xs, key=..., reverse=...)\<close>: a stable sort on the key. With
  \<^verbatim>\<open>reverse=True\<close> the order is descending and elements with equal keys still keep
  their original order, which is the stable sort on the negated key.
\<close>

definition sorted_py :: "('a \<Rightarrow> rat) \<Rightarrow> bool \<Rightarrow> 'a list \<Rightarrow> 'a list" where
  "sorted_py key reverse xs =
     (if reverse then sort_key (\<lambda>x. - key x) xs else sort_key key xs)"

text \<open>
  \<^verbatim>\<open>dict(pairs)\<close>: an insertion-ordered dictionary as an association list; a key
  that comes again keeps its place and takes the new value.
\<close>

definition dict_of :: "('k \<times> 'v) list \<Rightarrow> ('k \<times> 'v) list" where
  "dict_of pairs = fold (\<lambda>(k, v) d. AList.update k v d) pairs []"

text \<open>
  \<^verbatim>\<open>str.lower()\<close>, on the ASCII letters; the bytes of any other character are kept
  as they are. The pillar names of the catalog are ASCII.
\<close>

definition lower_char :: "char \<Rightarrow> char" where
  "lower_char c =
     (let n = (of_char c :: nat)
      in if 65 \<le> n \<and> n \<le> 90 then char_of (n + 32) else c)"

definition lower :: "string \<Rightarrow> string" where
  "lower s = map lower_char s"

subsection \<open>Pillars and tier bands\<close>

type_synonym pillar = "string \<times> string list"

type_synonym tier_band = "string \<times> int \<times> int"

type_synonym answer_set = "string \<rightharpoonup> int"

text \<open>A pillar score is the tuple \<^verbatim>\<open>(pname, pscore, dict(zip(qids, vals)))\<close>.\<close>

type_synonym pillar_score = "string \<times> rat \<times> (string \<times> int) list"

text \<open>The projections \<^verbatim>\<open>p[0]\<close> and \<^verbatim>\<open>p[1]\<close>.\<close>

fun p0 :: "pillar_score \<Rightarrow> string" where
  "p0 (pname, pscore, d) = pname"

fun p1 :: "pillar_score \<Rightarrow> rat" where
  "p1 (pname, pscore, d) = pscore"

definition PILLARS :: "pillar list" where
  "PILLARS =
     [(''A. Channel Strategy & Alignment'', [''A1'', ''A2'']),
      (''B. Partner Program Design'', [''B1'', ''B2'']),
      (''C. Partner Enablement & Engagement'', [''C1'', ''C2'']),
      (''D. Sales & Operations Integration'', [''D1'', ''D2'']),
      (''E. Growth Readiness'', [''E1'', ''E2''])]"

definition TIER_BANDS :: "tier_band list" where
  "TIER_BANDS =
     [(''Emerging'', 0, 39),
      (''Developing'', 40, 59),
      (''Established'', 60, 79),
      (''Optimized'', 80, 100)]"

subsection \<open>\<^verbatim>\<open>tier_for\<close>\<close>

text \<open>The test \<^verbatim>\<open>lo <= s <= hi\<close> of the loop body.\<close>

fun band_contains :: "int \<Rightarrow> tier_band \<Rightarrow> bool" where
  "band_contains s (name, lo, hi) = (lo \<le> s \<and> s \<le> hi)"

text \<open>
  The loop \<^verbatim>\<open>for name, lo, hi in TIER_BANDS\<close>: the first band that contains \<open>s\<close>
  returns its name; falling off the end returns \<^verbatim>\<open>"Unknown"\<close>.
\<close>

fun tier_loop :: "tier_band list \<Rightarrow> int \<Rightarrow> string" where
  "tier_loop [] s = ''Unknown''"
| "tier_loop ((name, lo, hi) # rest) s =
     (if lo \<le> s \<and> s \<le> hi then name else tier_loop rest s)"

definition tier_for :: "rat \<Rightarrow> string" where
  "tier_for score = tier_loop TIER_BANDS (py_round score)"

text \<open>The bands of a table that contain an integer, in table order.\<close>

definition matching_bands :: "tier_band list \<Rightarrow> int \<Rightarrow> tier_band list" where
  "matching_bands bands s = filter (band_contains s) bands"

subsection \<open>\<^verbatim>\<open>compute_scores\<close>\<close>

text \<open>\<^verbatim>\<open>[int(answers.get(q, 0)) for q in qids]\<close>\<close>

definition answer_vals :: "answer_set \<Rightarrow> string list \<Rightarrow> int list" where
  "answer_vals answers qids =
     map (\<lambda>q. case answers q of None \<Rightarrow> 0 | Some v \<Rightarrow> v) qids"

text \<open>
  The \<^verbatim>\<open>if not vals or all(v == 0 for v in vals)\<close> statement: either \<^verbatim>\<open>0.0\<close> or
  \<^verbatim>\<open>(sum(vals) / len(vals)) / 5.0 * 100.0\<close>.
\<close>

definition pscore_of :: "int list \<Rightarrow> py_error + rat" where
  "pscore_of vals =
     (if vals = [] \<or> list_all (\<lambda>v. v = 0) vals then Inr 0
      else case truediv (of_int (sum_list vals)) (of_nat (length vals)) of
             Inl e \<Rightarrow> Inl e
           | Inr mean \<Rightarrow> Inr (mean / 5 * 100))"

text \<open>The loop \<^verbatim>\<open>for pname, qids in PILLARS\<close>, appending one tuple per pillar.\<close>

fun pillar_loop :: "answer_set \<Rightarrow> pillar list \<Rightarrow> py_error + pillar_score list" where
  "pillar_loop answers [] = Inr []"
| "pillar_loop answers ((pname, qids) # rest) =
     (let vals = answer_vals answers qids
      in case pscore_of vals of
           Inl e \<Rightarrow> Inl e
         | Inr pscore \<Rightarrow>
             (case pillar_loop answers rest of
                Inl e \<Rightarrow> Inl e
              | Inr more \<Rightarrow> Inr ((pname, pscore, dict_of (zip qids vals)) # more)))"

text \<open>
  \<^verbatim>\<open>compute_scores\<close> over a given pillar table; the source reads the global
  \<^verbatim>\<open>PILLARS\<close>. The overall score is
  \<^verbatim>\<open>sum(p[1] for p in pillar_scores) / len(pillar_scores)\<close>.
\<close>

definition compute_scores_on ::
    "pillar list \<Rightarrow> answer_set \<Rightarrow> py_error + (pillar_score list \<times> rat)" where
  "compute_scores_on pillars answers =
     (case pillar_loop answers pillars of
        Inl e \<Rightarrow> Inl e
      | Inr pillar_scores \<Rightarrow>
          (case truediv (sum_list (map p1 pillar_scores)) (of_nat (length pillar_scores)) of
             Inl e \<Rightarrow> Inl e
           | Inr overall \<Rightarrow> Inr (pillar_scores, overall)))"

definition compute_scores :: "answer_set \<Rightarrow> py_error + (pillar_score list \<times> rat)" where
  "compute_scores answers = compute_scores_on PILLARS answers"

subsection \<open>\<^verbatim>\<open>derive_strengths_gaps\<close> and \<^verbatim>\<open>recommend_actions\<close>\<close>

definition derive_strengths_gaps :: "pillar_score list \<Rightarrow> string list \<times> string list" where
  "derive_strengths_gaps ps =
     (let sorted_p = sorted_py p1 True ps;
          strengths = map p0 (take 2 sorted_p);
          gaps = map p0 (drop (length sorted_p - 3) sorted_p)
      in (strengths, gaps))"

definition playbook :: "string \<rightharpoonup> string" where
  "playbook = map_of
     [(''A. Channel Strategy & Alignment'',
       ''Clarify the partner role by segment and set a 12-month channel thesis with 3 measurable outcomes.''),
      (''B. Partner Program Design'',
       ''Publish a simple one-pager: tiers, incentives, rules of engagement, and co-marketing paths.''),
      (''C. Partner Enablement & Engagement'',
       ''Stand up a 30-60-90 enablement cadence: onboarding kit, monthly enablement call, quarterly MDF campaign.''),
      (''D. Sales & Operations Integration'',
       ''Separate channel pipeline tracking; define lead routing/quoting SLAs; add ''
         @ [CHR 0xE2, CHR 0x80, CHR 0x98] @ ''channel'' @ [CHR 0xE2, CHR 0x80, CHR 0x99]
         @ '' to forecast reviews.''),
      (''E. Growth Readiness'',
       ''Baseline partner P&L and capacity; set tooling minimums (PRM/CRM views) and resource triggers for 2''
         @ [CHR 0xE2, CHR 0x80, CHR 0x93] @ ''3'' @ [CHR 0xC3, CHR 0x97] @ '' growth.'')]"

text \<open>\<^verbatim>\<open>lows = sorted(ps, key=lambda x: x[1])[:3]\<close>\<close>

definition lows :: "pillar_score list \<Rightarrow> pillar_score list" where
  "lows ps = take 3 (sorted_py p1 False ps)"

text \<open>\<^verbatim>\<open>playbook.get(p[0], f"Prioritize ... {p[0].lower()} to enable scale.")\<close>\<close>

definition playbook_get :: "pillar_score \<Rightarrow> string" where
  "playbook_get p =
     (case playbook (p0 p) of
        Some text \<Rightarrow> text
      | None \<Rightarrow> ''Prioritize foundational improvements in '' @ lower (p0 p) @ '' to enable scale.'')"

definition recommend_actions :: "pillar_score list \<Rightarrow> string list" where
  "recommend_actions ps = map playbook_get (lows ps)"

subsection \<open>Concrete inputs\<close>

text \<open>The answer set of the mixed scenario and the pillar scores it yields.\<close>

definition scenario_answers :: answer_set where
  "scenario_answers = map_of
     [(''A1'', 5), (''A2'', 5), (''B1'', 1), (''B2'', 1), (''C1'', 3), (''C2'', 3),
      (''D1'', 3), (''D2'', 3), (''E1'', 1), (''E2'', 1)]"

definition scenario_scores :: "pillar_score list" where
  "scenario_scores =
     [(''A. Channel Strategy & Alignment'', 100, [(''A1'', 5), (''A2'', 5)]),
      (''B. Partner Program Design'', 20, [(''B1'', 1), (''B2'', 1)]),
      (''C. Partner Enablement & Engagement'', 60, [(''C1'', 3), (''C2'', 3)]),
      (''D. Sales & Operations Integration'', 60, [(''D1'', 3), (''D2'', 3)]),
      (''E. Growth Readiness'', 20, [(''E1'', 1), (''E2'', 1)])]"

text \<open>Two answers of 10, beyond the 1 to 5 scale, and nothing else answered.\<close>

definition overrange_answers :: answer_set where
  "overrange_answers = map_of [(''A1'', 10), (''A2'', 10)]"

text \<open>Pillar A answered, one question of pillar B answered 0, the rest missing.\<close>

definition partial_answers :: answer_set where
  "partial_answers = map_of [(''A1'', 5), (''A2'', 5), (''B1'', 0)]"

text \<open>Five pillar scores with pairwise different scores, in rising order.\<close>

definition ladder_scores :: "pillar_score list" where
  "ladder_scores =
     [(''A'', 20, []), (''B'', 40, []), (''C'', 60, []), (''D'', 80, []), (''E'', 100, [])]"

text \<open>A pillar table whose first pillar has no questions.\<close>

definition sparse_catalog :: "pillar list" where
  "sparse_catalog = [(''X'', []), (''Y'', [''Y1''])]"

section \<open>Auxiliary facts\<close>

subsection \<open>Tier bands\<close>

lemma filter_single_ex1:
  assumes "filter P xs = [b]"
  shows "\<exists>!x. x \<in> set xs \<and> P x"
proof -
  have "x \<in> set (filter P xs) \<longleftrightarrow> x = b" for x
    unfolding assms by simp
  then have "(x \<in> set xs \<and> P x) \<longleftrightarrow> x = b" for x
    by simp
  then show ?thesis by simp
qed

lemma matching_bands_TIER_BANDS:
  "matching_bands TIER_BANDS i =
     (if 0 \<le> i \<and> i \<le> 39 then [(''Emerging'', 0, 39)]
      else if 40 \<le> i \<and> i \<le> 59 then [(''Developing'', 40, 59)]
      else if 60 \<le> i \<and> i \<le> 79 then [(''Established'', 60, 79)]
      else if 80 \<le> i \<and> i \<le> 100 then [(''Optimized'', 80, 100)]
      else [])"
  by (simp add: matching_bands_def TIER_BANDS_def)

lemma tier_loop_first_match:
  "tier_loop bands s = (case matching_bands bands s of [] \<Rightarrow> ''Unknown'' | b # bs \<Rightarrow> fst b)"
  by (induction bands s rule: tier_loop.induct) (simp_all add: matching_bands_def)

subsection \<open>Pillar scores\<close>

lemma all_zero_sum: "list_all (\<lambda>v. v = 0) vals \<Longrightarrow> sum_list vals = (0::int)"
  by (induction vals) simp_all

text \<open>
  The pillar score never raises. On an empty or all-zero list both sides are 0 (the
  right-hand side at the empty list by the convention \<open>x / 0 = 0\<close> of HOL, the left-hand
  side by the first branch of the source).
\<close>

lemma pscore_of_formula:
  "pscore_of vals = Inr (of_int (sum_list vals) / of_nat (length vals) / 5 * 100)"
proof (cases "vals = [] \<or> list_all (\<lambda>v. v = 0) vals")
  case True
  then have "sum_list vals = 0" by (auto simp: all_zero_sum)
  with True show ?thesis by (simp add: pscore_of_def)
next
  case False
  then have "of_nat (length vals) \<noteq> (0::rat)" by simp
  with False show ?thesis by (simp add: pscore_of_def truediv_def)
qed

lemma pillar_loop_result:
  "\<exists>pss. pillar_loop answers pillars = Inr pss \<and> length pss = length pillars \<and>
     (\<forall>i<length pillars.
        pss ! i = (fst (pillars ! i),
                   of_int (sum_list (answer_vals answers (snd (pillars ! i))))
                     / of_nat (length (snd (pillars ! i))) / 5 * 100,
                   dict_of (zip (snd (pillars ! i)) (answer_vals answers (snd (pillars ! i))))))"
proof (induction pillars)
  case Nil
  show ?case by simp
next
  case (Cons a rest)
  obtain pname qids where a: "a = (pname, qids)" by (cases a)
  from Cons obtain more where more: "pillar_loop answers rest = Inr more"
    "length more = length rest"
    "\<forall>i<length rest.
        more ! i = (fst (rest ! i),
                   of_int (sum_list (answer_vals answers (snd (rest ! i))))
                     / of_nat (length (snd (rest ! i))) / 5 * 100,
                   dict_of (zip (snd (rest ! i)) (answer_vals answers (snd (rest ! i)))))"
    by blast
  have len: "length (answer_vals answers qids) = length qids"
    by (simp add: answer_vals_def)
  let ?h = "(pname, of_int (sum_list (answer_vals answers qids)) / of_nat (length qids) / 5 * 100,
             dict_of (zip qids (answer_vals answers qids)))"
  have run: "pillar_loop answers (a # rest) = Inr (?h # more)"
    using more(1) len by (simp add: a pscore_of_formula Let_def)
  have "\<forall>i<length (a # rest).
        (?h # more) ! i = (fst ((a # rest) ! i),
                   of_int (sum_list (answer_vals answers (snd ((a # rest) ! i))))
                     / of_nat (length (snd ((a # rest) ! i))) / 5 * 100,
                   dict_of (zip (snd ((a # rest) ! i)) (answer_vals answers (snd ((a # rest) ! i)))))"
  proof (intro allI impI)
    fix i assume "i < length (a # rest)"
    then show "(?h # more) ! i = (fst ((a # rest) ! i),
                   of_int (sum_list (answer_vals answers (snd ((a # rest) ! i))))
                     / of_nat (length (snd ((a # rest) ! i))) / 5 * 100,
                   dict_of (zip (snd ((a # rest) ! i)) (answer_vals answers (snd ((a # rest) ! i)))))"
      using more(3) by (cases i) (simp_all add: a)
  qed
  with run more(2) show ?case by simp
qed

text \<open>
  On a table with at least one pillar \<open>compute_scores_on\<close> returns: one tuple per
  pillar, in table order, and the mean of their scores.
\<close>

lemma compute_scores_on_result:
  assumes "pillars \<noteq> []"
  shows "\<exists>pss. compute_scores_on pillars answers
            = Inr (pss, sum_list (map p1 pss) / of_nat (length pss)) \<and>
          length pss = length pillars \<and>
     (\<forall>i<length pillars.
        pss ! i = (fst (pillars ! i),
                   of_int (sum_list (answer_vals answers (snd (pillars ! i))))
                     / of_nat (length (snd (pillars ! i))) / 5 * 100,
                   dict_of (zip (snd (pillars ! i)) (answer_vals answers (snd (pillars ! i))))))"
proof -
  obtain pss where pss: "pillar_loop answers pillars = Inr pss" "length pss = length pillars"
     "\<forall>i<length pillars.
        pss ! i = (fst (pillars ! i),
                   of_int (sum_list (answer_vals answers (snd (pillars ! i))))
                     / of_nat (length (snd (pillars ! i))) / 5 * 100,
                   dict_of (zip (snd (pillars ! i)) (answer_vals answers (snd (pillars ! i)))))"
    using pillar_loop_result by blast
  from pss(2) assms have "of_nat (length pss) \<noteq> (0::rat)" by simp
  then have "compute_scores_on pillars answers
            = Inr (pss, sum_list (map p1 pss) / of_nat (length pss))"
    by (simp add: compute_scores_on_def pss(1) truediv_def)
  with pss(2,3) show ?thesis by blast
qed

lemma sum_list_bounds:
  "\<forall>v\<in>set vals. lo \<le> v \<and> v \<le> hi \<Longrightarrow>
     lo * int (length vals) \<le> sum_list vals \<and> sum_list vals \<le> hi * int (length vals)"
  by (induction vals) (auto simp: algebra_simps)

lemma score_range:
  assumes "\<forall>v\<in>set vals. 0 \<le> v \<and> v \<le> (5::int)"
  shows "0 \<le> (of_int (sum_list vals) / of_nat (length vals) / 5 * 100 :: rat)
       \<and> (of_int (sum_list vals) / of_nat (length vals) / 5 * 100 :: rat) \<le> 100"
proof (cases "vals = []")
  case True
  then show ?thesis by simp
next
  case False
  then have n: "0 < (of_nat (length vals) :: rat)" by simp
  from sum_list_bounds [OF assms]
  have b: "0 \<le> sum_list vals" "sum_list vals \<le> 5 * int (length vals)" by simp_all
  have lo: "(0::rat) \<le> of_int (sum_list vals)" using b(1) by simp
  have "(of_int (sum_list vals) :: rat) \<le> of_int (5 * int (length vals))"
    using b(2) by (simp only: of_int_le_iff)
  then have hi: "(of_int (sum_list vals) :: rat) \<le> 5 * of_nat (length vals)" by simp
  have "0 \<le> (of_int (sum_list vals) / of_nat (length vals) :: rat)"
    using lo n by simp
  moreover have "(of_int (sum_list vals) / of_nat (length vals) :: rat) \<le> 5"
    using hi n by (simp add: divide_le_eq)
  ultimately show ?thesis by simp
qed

lemma unanswered_vals:
  assumes "\<forall>q\<in>set qids. answers q = None \<or> answers q = Some 0"
  shows "sum_list (answer_vals answers qids) = 0"
  using assms by (induction qids) (auto simp: answer_vals_def)

text \<open>
  With pairwise different keys \<^verbatim>\<open>dict(pairs)\<close> keeps the pairs as they come.
\<close>

lemma update_fresh: "k \<notin> fst ` set al \<Longrightarrow> AList.update k v al = al @ [(k, v)]"
  by (induction al) auto

lemma fold_update_fresh:
  "distinct (map fst xs) \<Longrightarrow> fst ` set xs \<inter> fst ` set acc = {} \<Longrightarrow>
     fold (\<lambda>(k, v) d. AList.update k v d) xs acc = acc @ xs"
proof (induction xs arbitrary: acc)
  case Nil
  show ?case by simp
next
  case (Cons x xs)
  obtain k v where x: "x = (k, v)" by (cases x)
  from Cons.prems have fresh: "k \<notin> fst ` set acc" by (auto simp: x)
  have step: "AList.update k v acc = acc @ [(k, v)]" using fresh by (rule update_fresh)
  from Cons.prems have d: "distinct (map fst xs)" by simp
  from Cons.prems have "fst ` set xs \<inter> fst ` set (acc @ [(k, v)]) = {}"
    by (auto simp: x)
  from Cons.IH [OF d this] show ?case by (simp add: x step)
qed

lemma dict_of_distinct: "distinct (map fst xs) \<Longrightarrow> dict_of xs = xs"
  unfolding dict_of_def using fold_update_fresh [of xs "[]"] by simp

lemma dict_of_zip_raw:
  assumes "distinct qids"
  shows "dict_of (zip qids (answer_vals answers qids))
           = map (\<lambda>q. (q, case answers q of None \<Rightarrow> 0 | Some v \<Rightarrow> v)) qids"
proof -
  have z: "zip qids (answer_vals answers qids)
           = map (\<lambda>q. (q, case answers q of None \<Rightarrow> 0 | Some v \<Rightarrow> v)) qids"
    unfolding answer_vals_def by (induction qids) simp_all
  have "map fst (map (\<lambda>q. (q, case answers q of None \<Rightarrow> 0 | Some v \<Rightarrow> v)) qids) = qids"
    by (induction qids) simp_all
  with assms have "distinct (map fst (map (\<lambda>q. (q, case answers q of None \<Rightarrow> (0::int) | Some v \<Rightarrow> v)) qids))"
    by simp
  then show ?thesis unfolding z by (rule dict_of_distinct)
qed

lemma PILLARS_distinct_qids: "i < length PILLARS \<Longrightarrow> distinct (snd (PILLARS ! i))"
proof -
  assume "i < length PILLARS"
  then have "PILLARS ! i \<in> set PILLARS" by (rule nth_mem)
  moreover have "\<forall>p\<in>set PILLARS. distinct (snd p)" by (simp add: PILLARS_def)
  ultimately show ?thesis by blast
qed

lemma PILLARS_nonempty_qids: "i < length PILLARS \<Longrightarrow> length (snd (PILLARS ! i)) = 2"
proof -
  assume "i < length PILLARS"
  then have "PILLARS ! i \<in> set PILLARS" by (rule nth_mem)
  moreover have "\<forall>p\<in>set PILLARS. length (snd p) = 2" by (simp add: PILLARS_def)
  ultimately show ?thesis by blast
qed

lemma rat_score_above: "0 < y \<Longrightarrow> (100 < x / y / 5 * 100) = (5 * y < (x::rat))"
  by (simp add: field_simps)

lemma rat_score_below: "0 < y \<Longrightarrow> (x / y / 5 * 100 < 0) = ((x::rat) < 0)"
  by (simp add: field_simps)

lemma score_above_100:
  assumes "0 < n"
  shows "(100 < (of_int s / of_nat n / 5 * 100 :: rat)) = (5 * int n < s)"
proof -
  have n: "0 < (of_nat n :: rat)" using assms by simp
  have "(100 < (of_int s / of_nat n / 5 * 100 :: rat)) = ((5::rat) * of_nat n < of_int s)"
    using n by (rule rat_score_above)
  also have "\<dots> = ((of_int (5 * int n) :: rat) < of_int s)" by simp
  also have "\<dots> = (5 * int n < s)" by (simp only: of_int_less_iff)
  finally show ?thesis .
qed

lemma score_below_0:
  assumes "0 < n"
  shows "((of_int s / of_nat n / 5 * 100 :: rat) < 0) = (s < 0)"
proof -
  have n: "0 < (of_nat n :: rat)" using assms by simp
  have "((of_int s / of_nat n / 5 * 100 :: rat) < 0) = ((of_int s :: rat) < 0)"
    using n by (rule rat_score_below)
  also have "\<dots> = (s < 0)" by simp
  finally show ?thesis .
qed

lemma raw_vals_range:
  assumes "ran answers \<subseteq> {lo..hi}" "lo \<le> 0" "0 \<le> hi"
  shows "\<forall>v\<in>set (map (\<lambda>q. case answers q of None \<Rightarrow> 0 | Some v \<Rightarrow> v) qids). lo \<le> v \<and> v \<le> (hi::int)"
proof -
  have "lo \<le> v \<and> v \<le> hi" if "answers q = Some v" for q v
  proof -
    from that have "v \<in> ran answers" by (auto simp: ran_def)
    with assms(1) show ?thesis by auto
  qed
  with assms(2,3) show ?thesis by (auto split: option.splits)
qed

subsection \<open>Sorting\<close>

lemma sorted_py_mset: "mset (sorted_py key reverse xs) = mset xs"
  by (simp add: sorted_py_def)

lemma sorted_py_length: "length (sorted_py key reverse xs) = length xs"
  by (simp add: sorted_py_def)

text \<open>Stability: elements with the same key keep their original order.\<close>

lemma sorted_py_stable:
  "filter (\<lambda>x. key x = k) (sorted_py key reverse xs) = filter (\<lambda>x. key x = k) xs"
proof (cases reverse)
  case True
  have "filter (\<lambda>x. - key x = - k) (sort_key (\<lambda>x. - key x) xs)
          = filter (\<lambda>x. - key x = - k) xs"
    by (rule sort_key_stable)
  with True show ?thesis by (simp add: sorted_py_def)
next
  case False
  then show ?thesis by (simp add: sorted_py_def sort_key_stable)
qed

lemma sorted_py_ascending: "sorted_wrt (\<lambda>a b. key a \<le> key b) (sorted_py key False xs)"
proof -
  have "sorted (map key (sort_key key xs))" by (rule sorted_sort_key)
  then show ?thesis by (simp add: sorted_py_def sorted_map)
qed

lemma sorted_py_descending: "sorted_wrt (\<lambda>a b. key b \<le> key a) (sorted_py key True xs)"
proof -
  have "sorted (map (\<lambda>x. - key x) (sort_key (\<lambda>x. - key x) xs))" by (rule sorted_sort_key)
  then show ?thesis by (simp add: sorted_py_def sorted_map)
qed

lemma sorted_wrt_split:
  assumes "sorted_wrt R xs"
  shows "sorted_wrt R (take n xs) \<and> sorted_wrt R (drop n xs)
       \<and> (\<forall>a\<in>set (take n xs). \<forall>b\<in>set (drop n xs). R a b)"
proof -
  have "sorted_wrt R (take n xs @ drop n xs)" using assms by simp
  then show ?thesis unfolding sorted_wrt_append by blast
qed

subsection \<open>Playbook\<close>

lemma playbook_catalog:
  "name \<in> fst ` set PILLARS \<Longrightarrow> playbook name \<noteq> None"
  by (auto simp: PILLARS_def playbook_def)

section \<open>Properties of the scoring engine\<close>

subsection \<open>Scoring\<close>

text \<open>
  Claim C1, as the code has it. For every answer set whose values are integers below
  \<open>2 ^ 1023\<close> in magnitude (so that every pillar mean is within the range of a float;
  beyond it the int division raises \<^verbatim>\<open>OverflowError\<close>), \<open>compute_scores\<close>
  returns and raises nothing. It neither clamps nor zeroes an answer outside 1 to 5: each
  pillar records the answers of its questions as given (a missing answer as 0), its score
  is above 100 exactly when these raw answers sum to more than 5 times the number of its
  questions, and below 0 exactly when they sum to less than 0. Every pillar score lies in
  [0,100] whenever every answer value lies in [0,5].
\<close>

theorem compute_scores_total_unclamped:
  assumes "ran answers \<subseteq> {- (2 ^ 1023) <..< 2 ^ 1023}"
  shows "\<exists>pss overall. compute_scores answers = Inr (pss, overall)
     \<and> length pss = length PILLARS
     \<and> (\<forall>i<length PILLARS.
          p0 (pss ! i) = fst (PILLARS ! i)
        \<and> snd (snd (pss ! i))
            = map (\<lambda>q. (q, case answers q of None \<Rightarrow> 0 | Some v \<Rightarrow> v)) (snd (PILLARS ! i))
        \<and> (100 < p1 (pss ! i))
            = (5 * int (length (snd (PILLARS ! i)))
                 < sum_list (map (\<lambda>q. case answers q of None \<Rightarrow> 0 | Some v \<Rightarrow> v)
                              (snd (PILLARS ! i))))
        \<and> (p1 (pss ! i) < 0)
            = (sum_list (map (\<lambda>q. case answers q of None \<Rightarrow> 0 | Some v \<Rightarrow> v)
                              (snd (PILLARS ! i))) < 0))
     \<and> (ran answers \<subseteq> {0..5} \<longrightarrow> (\<forall>p\<in>set pss. 0 \<le> p1 p \<and> p1 p \<le> 100))"
proof -
  let ?raw = "\<lambda>q. case answers q of None \<Rightarrow> (0::int) | Some v \<Rightarrow> v"
  have ne: "PILLARS \<noteq> []" by (simp add: PILLARS_def)
  from compute_scores_on_result [OF ne, of answers]
  obtain pss where run: "compute_scores answers = Inr (pss, sum_list (map p1 pss) / of_nat (length pss))"
    and len: "length pss = length PILLARS"
    and each: "\<forall>i<length PILLARS.
        pss ! i = (fst (PILLARS ! i),
                   of_int (sum_list (answer_vals answers (snd (PILLARS ! i))))
                     / of_nat (length (snd (PILLARS ! i))) / 5 * 100,
                   dict_of (zip (snd (PILLARS ! i)) (answer_vals answers (snd (PILLARS ! i)))))"
    unfolding compute_scores_def by blast
  have vals: "answer_vals answers qids = map ?raw qids" for qids
    by (simp add: answer_vals_def)
  have per: "p0 (pss ! i) = fst (PILLARS ! i)
        \<and> snd (snd (pss ! i)) = map (\<lambda>q. (q, ?raw q)) (snd (PILLARS ! i))
        \<and> (100 < p1 (pss ! i))
            = (5 * int (length (snd (PILLARS ! i))) < sum_list (map ?raw (snd (PILLARS ! i))))
        \<and> (p1 (pss ! i) < 0) = (sum_list (map ?raw (snd (PILLARS ! i))) < 0)"
    if i: "i < length PILLARS" for i
  proof -
    from each i have eq: "pss ! i = (fst (PILLARS ! i),
                   of_int (sum_list (answer_vals answers (snd (PILLARS ! i))))
                     / of_nat (length (snd (PILLARS ! i))) / 5 * 100,
                   dict_of (zip (snd (PILLARS ! i)) (answer_vals answers (snd (PILLARS ! i)))))"
      by blast
    have pos: "0 < length (snd (PILLARS ! i))"
      using PILLARS_nonempty_qids [OF i] by simp
    have d: "dict_of (zip (snd (PILLARS ! i)) (map ?raw (snd (PILLARS ! i))))
               = map (\<lambda>q. (q, ?raw q)) (snd (PILLARS ! i))"
      using dict_of_zip_raw [OF PILLARS_distinct_qids [OF i], of answers] unfolding vals .
    show ?thesis
      unfolding eq vals d
      using score_above_100 [OF pos, of "sum_list (map ?raw (snd (PILLARS ! i)))"]
            score_below_0 [OF pos, of "sum_list (map ?raw (snd (PILLARS ! i)))"]
      by simp
  qed
  have rng: "\<forall>p\<in>set pss. 0 \<le> p1 p \<and> p1 p \<le> 100" if r: "ran answers \<subseteq> {0..5}"
  proof
    fix p assume "p \<in> set pss"
    then obtain i where i: "i < length pss" "p = pss ! i" by (auto simp: in_set_conv_nth)
    have "\<forall>v\<in>set (map ?raw (snd (PILLARS ! i))). 0 \<le> v \<and> v \<le> 5"
      using r by (rule raw_vals_range) simp_all
    from score_range [OF this] i each len
    show "0 \<le> p1 p \<and> p1 p \<le> 100"
      by (simp add: vals)
  qed
  from run len per rng show ?thesis by blast
qed

text \<open>
  The statement at two inputs. With A1 = A2 = 10 pillar A records both answers as 10 and
  scores above 100. At the scenario answers, whose values lie in [0,5], all five scores
  lie in [0,100].
\<close>

theorem compute_scores_total_unclamped_witness:
  "ran overrange_answers \<subseteq> {- (2 ^ 1023) <..< 2 ^ 1023}
   \<and> (\<exists>pss overall. compute_scores overrange_answers = Inr (pss, overall)
        \<and> snd (snd (pss ! 0)) = [(''A1'', 10), (''A2'', 10)]
        \<and> 100 < p1 (pss ! 0))
   \<and> ran scenario_answers \<subseteq> {- (2 ^ 1023) <..< 2 ^ 1023}
   \<and> ran scenario_answers \<subseteq> {0..5}
   \<and> (\<exists>pss overall. compute_scores scenario_answers = Inr (pss, overall)
        \<and> list_all (\<lambda>p. 0 \<le> p1 p \<and> p1 p \<le> 100) pss)"
proof -
  have zero: "0 < length PILLARS" "snd (PILLARS ! 0) = [''A1'', ''A2'']"
    by (simp_all add: PILLARS_def)
  have h1: "ran overrange_answers \<subseteq> {- (2 ^ 1023) <..< 2 ^ 1023}"
    unfolding overrange_answers_def by (subst ran_distinct) simp_all
  from compute_scores_total_unclamped [OF h1]
  obtain pss overall where run: "compute_scores overrange_answers = Inr (pss, overall)"
    and each: "\<forall>i<length PILLARS.
          p0 (pss ! i) = fst (PILLARS ! i)
        \<and> snd (snd (pss ! i))
            = map (\<lambda>q. (q, case overrange_answers q of None \<Rightarrow> 0 | Some v \<Rightarrow> v)) (snd (PILLARS ! i))
        \<and> (100 < p1 (pss ! i))
            = (5 * int (length (snd (PILLARS ! i)))
                 < sum_list (map (\<lambda>q. case overrange_answers q of None \<Rightarrow> 0 | Some v \<Rightarrow> v)
                              (snd (PILLARS ! i))))
        \<and> (p1 (pss ! i) < 0)
            = (sum_list (map (\<lambda>q. case overrange_answers q of None \<Rightarrow> 0 | Some v \<Rightarrow> v)
                              (snd (PILLARS ! i))) < 0)"
    by blast
  from each zero(1)
  have "snd (snd (pss ! 0))
            = map (\<lambda>q. (q, case overrange_answers q of None \<Rightarrow> 0 | Some v \<Rightarrow> v)) (snd (PILLARS ! 0))
        \<and> (100 < p1 (pss ! 0))
            = (5 * int (length (snd (PILLARS ! 0)))
                 < sum_list (map (\<lambda>q. case overrange_answers q of None \<Rightarrow> 0 | Some v \<Rightarrow> v)
                              (snd (PILLARS ! 0))))"
    by blast
  then have a: "snd (snd (pss ! 0)) = [(''A1'', 10), (''A2'', 10)] \<and> 100 < p1 (pss ! 0)"
    unfolding zero(2) by (simp add: overrange_answers_def)
  have first: "\<exists>pss overall. compute_scores overrange_answers = Inr (pss, overall)
        \<and> snd (snd (pss ! 0)) = [(''A1'', 10), (''A2'', 10)]
        \<and> 100 < p1 (pss ! 0)"
    using run a by blast
  have h2: "ran scenario_answers \<subseteq> {- (2 ^ 1023) <..< 2 ^ 1023}"
    unfolding scenario_answers_def by (subst ran_distinct) simp_all
  have h3: "ran scenario_answers \<subseteq> {0..5}"
    unfolding scenario_answers_def by (subst ran_distinct) simp_all
  from compute_scores_total_unclamped [OF h2] h3
  obtain pss' overall' where run': "compute_scores scenario_answers = Inr (pss', overall')"
    and rng: "\<forall>p\<in>set pss'. 0 \<le> p1 p \<and> p1 p \<le> 100"
    by blast
  from rng have "list_all (\<lambda>p. 0 \<le> p1 p \<and> p1 p \<le> 100) pss'"
    by (simp add: list_all_iff)
  with run' have second: "\<exists>pss overall. compute_scores scenario_answers = Inr (pss, overall)
        \<and> list_all (\<lambda>p. 0 \<le> p1 p \<and> p1 p \<le> 100) pss"
    by blast
  from h1 first h2 h3 second show ?thesis by blast
qed

text \<open>
  Claim C1 as stated fails: with A1 = A2 = 10 nothing is clamped or zeroed, the dictionary
  of pillar A records the two answers as 10, and the score of pillar A is 200, above 100.
\<close>

theorem compute_scores_overrange_counterexample:
  "compute_scores overrange_answers =
     Inr ([(''A. Channel Strategy & Alignment'', 200, [(''A1'', 10), (''A2'', 10)]),
           (''B. Partner Program Design'', 0, [(''B1'', 0), (''B2'', 0)]),
           (''C. Partner Enablement & Engagement'', 0, [(''C1'', 0), (''C2'', 0)]),
           (''D. Sales & Operations Integration'', 0, [(''D1'', 0), (''D2'', 0)]),
           (''E. Growth Readiness'', 0, [(''E1'', 0), (''E2'', 0)])], 40)"
  by (simp add: compute_scores_def compute_scores_on_def PILLARS_def overrange_answers_def
      answer_vals_def pscore_of_def truediv_def dict_of_def)

text \<open>
  Claim C3. For every answer set whose values all lie in [1,5], \<open>compute_scores\<close>
  returns one score per catalog pillar, in catalog order, and each pillar's score equals
  (sum of that pillar's answers / count of its questions) / 5 * 100 and lies in [0,100].
  The answers are read from the answer set itself; a question without an answer counts as
  0 in the sum, as \<^verbatim>\<open>answers.get(q, 0)\<close> has it.
\<close>

theorem pillar_scores_formula_in_range:
  assumes "ran answers \<subseteq> {1..5}"
  shows "\<exists>pss overall. compute_scores answers = Inr (pss, overall)
     \<and> length pss = length PILLARS
     \<and> (\<forall>i<length PILLARS.
          p0 (pss ! i) = fst (PILLARS ! i)
        \<and> p1 (pss ! i)
            = (of_int (sum_list (map (\<lambda>q. case answers q of None \<Rightarrow> 0 | Some v \<Rightarrow> v)
                                   (snd (PILLARS ! i))))
                 / of_nat (length (snd (PILLARS ! i)))) / 5 * 100
        \<and> 0 \<le> p1 (pss ! i) \<and> p1 (pss ! i) \<le> 100)"
proof -
  let ?raw = "\<lambda>q. case answers q of None \<Rightarrow> (0::int) | Some v \<Rightarrow> v"
  have ne: "PILLARS \<noteq> []" by (simp add: PILLARS_def)
  from compute_scores_on_result [OF ne, of answers]
  obtain pss where run: "compute_scores answers = Inr (pss, sum_list (map p1 pss) / of_nat (length pss))"
    and len: "length pss = length PILLARS"
    and each: "\<forall>i<length PILLARS.
        pss ! i = (fst (PILLARS ! i),
                   of_int (sum_list (answer_vals answers (snd (PILLARS ! i))))
                     / of_nat (length (snd (PILLARS ! i))) / 5 * 100,
                   dict_of (zip (snd (PILLARS ! i)) (answer_vals answers (snd (PILLARS ! i)))))"
    unfolding compute_scores_def by blast
  have vals: "answer_vals answers qids = map ?raw qids" for qids
    by (simp add: answer_vals_def)
  from assms have "ran answers \<subseteq> {0..5}" by auto
  then have range: "\<forall>v\<in>set (map ?raw qids). 0 \<le> v \<and> v \<le> 5" for qids
    by (rule raw_vals_range) simp_all
  have "\<forall>i<length PILLARS.
          p0 (pss ! i) = fst (PILLARS ! i)
        \<and> p1 (pss ! i)
            = (of_int (sum_list (map ?raw (snd (PILLARS ! i))))
                 / of_nat (length (snd (PILLARS ! i)))) / 5 * 100
        \<and> 0 \<le> p1 (pss ! i) \<and> p1 (pss ! i) \<le> 100"
  proof (intro allI impI)
    fix i assume i: "i < length PILLARS"
    from score_range [OF range, of "snd (PILLARS ! i)"] each i
    show "p0 (pss ! i) = fst (PILLARS ! i)
        \<and> p1 (pss ! i)
            = (of_int (sum_list (map ?raw (snd (PILLARS ! i))))
                 / of_nat (length (snd (PILLARS ! i)))) / 5 * 100
        \<and> 0 \<le> p1 (pss ! i) \<and> p1 (pss ! i) \<le> 100"
      by (simp add: vals)
  qed
  with run len show ?thesis by blast
qed

text \<open>
  The statement at the scenario answers: the five scores come out as 100, 20, 60, 60
  and 20.
\<close>

theorem pillar_scores_formula_in_range_witness:
  "ran scenario_answers \<subseteq> {1..5}
   \<and> (\<exists>pss overall. compute_scores scenario_answers = Inr (pss, overall)
        \<and> length pss = 5
        \<and> p1 (pss ! 0) = 100 \<and> p1 (pss ! 1) = 20 \<and> p1 (pss ! 2) = 60
        \<and> p1 (pss ! 3) = 60 \<and> p1 (pss ! 4) = 20)"
proof -
  have h: "ran scenario_answers \<subseteq> {1..5}"
    unfolding scenario_answers_def by (subst ran_distinct) simp_all
  have n: "length PILLARS = 5" by (simp add: PILLARS_def)
  from pillar_scores_formula_in_range [OF h]
  obtain pss overall where run: "compute_scores scenario_answers = Inr (pss, overall)"
    and len: "length pss = length PILLARS"
    and each: "\<forall>i<length PILLARS.
          p0 (pss ! i) = fst (PILLARS ! i)
        \<and> p1 (pss ! i)
            = (of_int (sum_list (map (\<lambda>q. case scenario_answers q of None \<Rightarrow> 0 | Some v \<Rightarrow> v)
                                   (snd (PILLARS ! i))))
                 / of_nat (length (snd (PILLARS ! i)))) / 5 * 100
        \<and> 0 \<le> p1 (pss ! i) \<and> p1 (pss ! i) \<le> 100"
    by blast
  have form: "p1 (pss ! i)
            = (of_int (sum_list (map (\<lambda>q. case scenario_answers q of None \<Rightarrow> 0 | Some v \<Rightarrow> v)
                                   (snd (PILLARS ! i))))
                 / of_nat (length (snd (PILLARS ! i)))) / 5 * 100" if "i < 5" for i
    using each that n by simp
  have "p1 (pss ! 0) = 100"
    using form [of 0] by (simp add: PILLARS_def scenario_answers_def)
  moreover have "p1 (pss ! 1) = 20"
    using form [of 1] by (simp add: PILLARS_def scenario_answers_def)
  moreover have "p1 (pss ! 2) = 60"
    using form [of 2] by (simp add: PILLARS_def scenario_answers_def)
  moreover have "p1 (pss ! 3) = 60"
    using form [of 3] by (simp add: PILLARS_def scenario_answers_def)
  moreover have "p1 (pss ! 4) = 20"
    using form [of 4] by (simp add: PILLARS_def scenario_answers_def)
  moreover from len n have "length pss = 5" by simp
  ultimately show ?thesis using run h by blast
qed

text \<open>
  Claim C4. For every answer set the overall score returned by \<open>compute_scores\<close> is
  the unweighted arithmetic mean of all pillar scores: their sum divided by the number of
  pillars, one entry per catalog pillar. A pillar whose answers are all 0 or missing scores
  exactly 0 and stays an entry of that mean.
\<close>

theorem overall_is_unweighted_mean:
  "\<exists>pss overall. compute_scores answers = Inr (pss, overall)
     \<and> length pss = length PILLARS
     \<and> overall = sum_list (map p1 pss) / of_nat (length pss)
     \<and> (\<forall>i<length PILLARS.
          (\<forall>q\<in>set (snd (PILLARS ! i)). answers q = None \<or> answers q = Some 0)
            \<longrightarrow> p1 (pss ! i) = 0)"
proof -
  have ne: "PILLARS \<noteq> []" by (simp add: PILLARS_def)
  from compute_scores_on_result [OF ne, of answers]
  obtain pss where run: "compute_scores answers = Inr (pss, sum_list (map p1 pss) / of_nat (length pss))"
    and len: "length pss = length PILLARS"
    and each: "\<forall>i<length PILLARS.
        pss ! i = (fst (PILLARS ! i),
                   of_int (sum_list (answer_vals answers (snd (PILLARS ! i))))
                     / of_nat (length (snd (PILLARS ! i))) / 5 * 100,
                   dict_of (zip (snd (PILLARS ! i)) (answer_vals answers (snd (PILLARS ! i)))))"
    unfolding compute_scores_def by blast
  have "\<forall>i<length PILLARS.
          (\<forall>q\<in>set (snd (PILLARS ! i)). answers q = None \<or> answers q = Some 0)
            \<longrightarrow> p1 (pss ! i) = 0"
    using each by (simp add: unanswered_vals)
  with run len show ?thesis by blast
qed

text \<open>
  The statement at an answer set in which pillar B (index 1) has one answer 0 and one
  missing: B scores 0 and the mean is still over five entries.
\<close>

theorem overall_is_unweighted_mean_witness:
  "list_all (\<lambda>q. partial_answers q = None \<or> partial_answers q = Some 0) (snd (PILLARS ! 1))
   \<and> (\<exists>pss overall. compute_scores partial_answers = Inr (pss, overall)
        \<and> length pss = 5
        \<and> overall = sum_list (map p1 pss) / 5
        \<and> p1 (pss ! 1) = 0)"
proof -
  have h: "\<forall>q\<in>set (snd (PILLARS ! 1)). partial_answers q = None \<or> partial_answers q = Some 0"
    by (simp add: PILLARS_def partial_answers_def)
  have one: "(1::nat) < length PILLARS" "length PILLARS = 5"
    by (simp_all add: PILLARS_def)
  from overall_is_unweighted_mean [of partial_answers]
  obtain pss overall where run: "compute_scores partial_answers = Inr (pss, overall)"
    and len: "length pss = length PILLARS"
    and mean: "overall = sum_list (map p1 pss) / of_nat (length pss)"
    and zero: "\<forall>i<length PILLARS.
          (\<forall>q\<in>set (snd (PILLARS ! i)). partial_answers q = None \<or> partial_answers q = Some 0)
            \<longrightarrow> p1 (pss ! i) = 0"
    by blast
  from zero one(1) h have "p1 (pss ! 1) = 0" by blast
  moreover from len one(2) have "length pss = 5" by simp
  moreover from mean this have "overall = sum_list (map p1 pss) / 5" by simp
  moreover from h
  have "list_all (\<lambda>q. partial_answers q = None \<or> partial_answers q = Some 0) (snd (PILLARS ! 1))"
    by (simp add: list_all_iff)
  ultimately show ?thesis using run by blast
qed

text \<open>
  Claim C8. For every catalog in which some pillar has an empty list of questions,
  \<open>compute_scores\<close> over that catalog returns on any answer set (no
  \<^verbatim>\<open>ZeroDivisionError\<close>), and every pillar without questions gets the score 0.
\<close>

theorem empty_pillar_scores_zero:
  assumes "(pname, []) \<in> set pillars"
  shows "\<exists>pss overall. compute_scores_on pillars answers = Inr (pss, overall)
     \<and> length pss = length pillars
     \<and> (\<forall>i<length pillars. snd (pillars ! i) = [] \<longrightarrow>
           p0 (pss ! i) = fst (pillars ! i) \<and> p1 (pss ! i) = 0)
     \<and> pscore_of (answer_vals answers []) = Inr 0"
proof -
  from assms have ne: "pillars \<noteq> []" by auto
  from compute_scores_on_result [OF ne, of answers]
  obtain pss where run: "compute_scores_on pillars answers = Inr (pss, sum_list (map p1 pss) / of_nat (length pss))"
    and len: "length pss = length pillars"
    and each: "\<forall>i<length pillars.
        pss ! i = (fst (pillars ! i),
                   of_int (sum_list (answer_vals answers (snd (pillars ! i))))
                     / of_nat (length (snd (pillars ! i))) / 5 * 100,
                   dict_of (zip (snd (pillars ! i)) (answer_vals answers (snd (pillars ! i)))))"
    by blast
  have "\<forall>i<length pillars. snd (pillars ! i) = [] \<longrightarrow>
           p0 (pss ! i) = fst (pillars ! i) \<and> p1 (pss ! i) = 0"
    using each by simp
  moreover have "pscore_of (answer_vals answers []) = Inr 0"
    by (simp add: pscore_of_def answer_vals_def)
  ultimately show ?thesis using run len by blast
qed

text \<open>The statement at a two-pillar table whose first pillar has no questions.\<close>

theorem empty_pillar_scores_zero_witness:
  "(''X'', []) \<in> set sparse_catalog
   \<and> (\<exists>pss overall. compute_scores_on sparse_catalog scenario_answers = Inr (pss, overall)
        \<and> p0 (pss ! 0) = ''X'' \<and> p1 (pss ! 0) = 0)"
proof -
  have h: "(''X'', []) \<in> set sparse_catalog" by (simp add: sparse_catalog_def)
  have z: "0 < length sparse_catalog" "sparse_catalog ! 0 = (''X'', [])"
    by (simp_all add: sparse_catalog_def)
  from empty_pillar_scores_zero [OF h, of scenario_answers]
  obtain pss overall where run: "compute_scores_on sparse_catalog scenario_answers = Inr (pss, overall)"
    and each: "\<forall>i<length sparse_catalog. snd (sparse_catalog ! i) = [] \<longrightarrow>
           p0 (pss ! i) = fst (sparse_catalog ! i) \<and> p1 (pss ! i) = 0"
    by blast
  from each z have "p0 (pss ! 0) = ''X'' \<and> p1 (pss ! 0) = 0" by simp
  with run h show ?thesis by blast
qed

text \<open>
  Claim C7. The scenario A1 = A2 = 5, B1 = B2 = 1, C1 = C2 = D1 = D2 = 3, E1 = E2 = 1
  yields the pillar scores A = 100, B = 20, C = 60, D = 60, E = 20 and the overall score
  52, whose tier is "Developing". The strengths are A and C; the gaps are D, B and E, in
  this order: of the tied pillars C and D, the earlier one is a strength and the later one
  a gap.
\<close>

theorem scenario_mixed_answers:
  "compute_scores scenario_answers = Inr (scenario_scores, 52)
   \<and> map p0 scenario_scores = map fst PILLARS
   \<and> map p1 scenario_scores = [100, 20, 60, 60, 20]
   \<and> tier_for 52 = ''Developing''
   \<and> derive_strengths_gaps scenario_scores =
       ([''A. Channel Strategy & Alignment'', ''C. Partner Enablement & Engagement''],
        [''D. Sales & Operations Integration'', ''B. Partner Program Design'',
         ''E. Growth Readiness''])"
proof (intro conjI)
  show "compute_scores scenario_answers = Inr (scenario_scores, 52)"
    by (simp add: compute_scores_def compute_scores_on_def PILLARS_def scenario_answers_def
        scenario_scores_def answer_vals_def pscore_of_def truediv_def dict_of_def)
  show "map p0 scenario_scores = map fst PILLARS"
    by (simp add: scenario_scores_def PILLARS_def)
  show "map p1 scenario_scores = [100, 20, 60, 60, 20]"
    by (simp add: scenario_scores_def)
  show "tier_for 52 = ''Developing''"
    by (simp add: tier_for_def py_round_def TIER_BANDS_def)
  show "derive_strengths_gaps scenario_scores =
       ([''A. Channel Strategy & Alignment'', ''C. Partner Enablement & Engagement''],
        [''D. Sales & Operations Integration'', ''B. Partner Program Design'',
         ''E. Growth Readiness''])"
    by (simp add: derive_strengths_gaps_def sorted_py_def scenario_scores_def sort_key_def)
qed

subsection \<open>Tiers\<close>

text \<open>
  Claim C2, as the code has it. For every finite overall score the tier lookup returns the
  label of the first band of the table whose inclusive range contains the rounded score;
  the configured table has at most one such band. When no band matches, which is exactly
  when the rounded score is below 0 or above 100, the lookup returns the ordinary label
  "Unknown" as its result. (On \<^verbatim>\<open>inf\<close> and \<^verbatim>\<open>nan\<close> the source raises
  already in \<^verbatim>\<open>round\<close>; these are no values of the model.)
\<close>

theorem tier_for_first_match_or_unknown:
  "tier_for score =
     (case matching_bands TIER_BANDS (py_round score) of
        [] \<Rightarrow> ''Unknown'' | b # bs \<Rightarrow> fst b)
   \<and> length (matching_bands TIER_BANDS (py_round score)) \<le> 1
   \<and> ((matching_bands TIER_BANDS (py_round score) = [])
        = (py_round score < 0 \<or> 100 < py_round score))"
proof (intro conjI)
  show "tier_for score =
     (case matching_bands TIER_BANDS (py_round score) of
        [] \<Rightarrow> ''Unknown'' | b # bs \<Rightarrow> fst b)"
    by (simp only: tier_for_def tier_loop_first_match)
  show "length (matching_bands TIER_BANDS (py_round score)) \<le> 1"
    by (simp add: matching_bands_TIER_BANDS)
  show "(matching_bands TIER_BANDS (py_round score) = [])
        = (py_round score < 0 \<or> 100 < py_round score)"
    unfolding matching_bands_TIER_BANDS by auto
qed

text \<open>
  Claim C2 as stated fails: the score 101 rounds to 101, which no band contains, and the
  lookup hands back the string "Unknown" as its result.
\<close>

theorem tier_for_unknown_counterexample:
  "py_round 101 = 101
   \<and> matching_bands TIER_BANDS (py_round 101) = []
   \<and> tier_for 101 = ''Unknown''"
  by (simp add: tier_for_def py_round_def TIER_BANDS_def matching_bands_def)

text \<open>
  Claim C6. The configured bands are Emerging 0 to 39, Developing 40 to 59, Established
  60 to 79 and Optimized 80 to 100, and they partition [0,100]: every integer from 0 to 100
  lies in the inclusive range of exactly one band.
\<close>

theorem tier_bands_partition:
  "TIER_BANDS = [(''Emerging'', 0, 39), (''Developing'', 40, 59),
                 (''Established'', 60, 79), (''Optimized'', 80, 100)]
   \<and> (\<forall>i\<in>{0..100}. \<exists>!b. b \<in> set TIER_BANDS \<and> band_contains i b)"
proof
  show "TIER_BANDS = [(''Emerging'', 0, 39), (''Developing'', 40, 59),
                      (''Established'', 60, 79), (''Optimized'', 80, 100)]"
    by (simp add: TIER_BANDS_def)
next
  show "\<forall>i\<in>{0..100}. \<exists>!b. b \<in> set TIER_BANDS \<and> band_contains i b"
  proof
    fix i :: int
    assume "i \<in> {0..100}"
    then have r: "0 \<le> i" "i \<le> 100" by simp_all
    have "\<exists>b. matching_bands TIER_BANDS i = [b]"
      unfolding matching_bands_TIER_BANDS using r by auto
    then obtain b where "filter (band_contains i) TIER_BANDS = [b]"
      by (auto simp: matching_bands_def)
    then show "\<exists>!b. b \<in> set TIER_BANDS \<and> band_contains i b"
      by (rule filter_single_ex1)
  qed
qed

text \<open>The statement at the boundary value 40, the first integer of the second band.\<close>

theorem tier_bands_partition_witness:
  "(40::int) \<in> {0..100} \<and> (\<exists>!b. b \<in> set TIER_BANDS \<and> band_contains 40 b)"
  using tier_bands_partition by simp

subsection \<open>Strengths, gaps and recommendations\<close>

text \<open>
  Claim C5, as the code has it. For every list of pillar scores the gaps are the names of
  the last min(3, n) entries of the stable descending sort by score. So there is a
  rearrangement \<open>hi @ lo\<close> of the input in which pillars of equal score keep their
  original order, the gaps are the names of \<open>lo\<close>, \<open>lo\<close> has 3 entries when the
  input has at least 3, no entry of \<open>lo\<close> scores above an entry of \<open>hi\<close>, and
  \<open>lo\<close> is listed in descending order of score: the weakest pillar comes last.
\<close>

theorem gaps_tail_of_descending:
  "\<exists>hi lo. mset (hi @ lo) = mset ps
     \<and> (\<forall>k. filter (\<lambda>p. p1 p = k) (hi @ lo) = filter (\<lambda>p. p1 p = k) ps)
     \<and> length lo = min 3 (length ps)
     \<and> snd (derive_strengths_gaps ps) = map p0 lo
     \<and> sorted_wrt (\<lambda>a b. p1 b \<le> p1 a) lo
     \<and> (\<forall>a\<in>set hi. \<forall>b\<in>set lo. p1 b \<le> p1 a)"
proof -
  let ?s = "sorted_py p1 True ps"
  let ?n = "length ?s - 3"
  have split: "sorted_wrt (\<lambda>a b. p1 b \<le> p1 a) (drop ?n ?s)"
      "\<forall>a\<in>set (take ?n ?s). \<forall>b\<in>set (drop ?n ?s). p1 b \<le> p1 a"
    using sorted_wrt_split [OF sorted_py_descending, of p1 ?n ps] by simp_all
  have "mset (take ?n ?s @ drop ?n ?s) = mset ps"
    by (simp add: sorted_py_mset)
  moreover have "\<forall>k. filter (\<lambda>p. p1 p = k) (take ?n ?s @ drop ?n ?s) = filter (\<lambda>p. p1 p = k) ps"
    using sorted_py_stable [of p1 _ True ps] by simp
  moreover have "length (drop ?n ?s) = min 3 (length ps)"
    by (simp add: sorted_py_length)
  moreover have "snd (derive_strengths_gaps ps) = map p0 (drop ?n ?s)"
    by (simp add: derive_strengths_gaps_def Let_def)
  ultimately show ?thesis using split by blast
qed

text \<open>The statement at five pillars with the scores 20, 40, 60, 80 and 100.\<close>

theorem gaps_tail_of_descending_witness:
  "\<exists>hi lo. mset (hi @ lo) = mset ladder_scores
     \<and> (\<forall>k. filter (\<lambda>p. p1 p = k) (hi @ lo) = filter (\<lambda>p. p1 p = k) ladder_scores)
     \<and> length lo = min 3 (length ladder_scores)
     \<and> snd (derive_strengths_gaps ladder_scores) = map p0 lo
     \<and> sorted_wrt (\<lambda>a b. p1 b \<le> p1 a) lo
     \<and> (\<forall>a\<in>set hi. \<forall>b\<in>set lo. p1 b \<le> p1 a)"
  using gaps_tail_of_descending [of ladder_scores] .

text \<open>
  Claim C5 as stated fails: for the scores A = 20, B = 40, C = 60, D = 80, E = 100 the gaps
  come out as C, B, A, the weakest pillar last, whereas the ascending stable order of the
  three lowest pillars (the one \<^verbatim>\<open>recommend_actions\<close> uses) is A, B, C.
\<close>

theorem gaps_descending_counterexample:
  "snd (derive_strengths_gaps ladder_scores) = [''C'', ''B'', ''A'']
   \<and> map p0 (lows ladder_scores) = [''A'', ''B'', ''C'']"
  by (simp add: derive_strengths_gaps_def sorted_py_def ladder_scores_def sort_key_def lows_def)

text \<open>
  Claim C9. For every list of exactly 5 pillar scores there are 2 strengths and 3 gaps,
  and together they are the pillar names of the input, each entry of the input taken exactly
  once (equality of multisets), also when scores tie. For 5 pairwise different pillar names,
  as in the catalog, this makes strengths and gaps disjoint and free of repetitions.
\<close>

theorem strengths_gaps_split_five:
  assumes "length ps = 5"
  shows "length (fst (derive_strengths_gaps ps)) = 2
       \<and> length (snd (derive_strengths_gaps ps)) = 3
       \<and> mset (fst (derive_strengths_gaps ps) @ snd (derive_strengths_gaps ps)) = mset (map p0 ps)
       \<and> (distinct (map p0 ps) \<longrightarrow>
            set (fst (derive_strengths_gaps ps)) \<inter> set (snd (derive_strengths_gaps ps)) = {}
          \<and> distinct (fst (derive_strengths_gaps ps) @ snd (derive_strengths_gaps ps)))"
proof -
  let ?s = "sorted_py p1 True ps"
  have len: "length ?s = 5" using assms by (simp add: sorted_py_length)
  have st: "fst (derive_strengths_gaps ps) = map p0 (take 2 ?s)"
    by (simp add: derive_strengths_gaps_def Let_def)
  have ga: "snd (derive_strengths_gaps ps) = map p0 (drop 2 ?s)"
    using len by (simp add: derive_strengths_gaps_def Let_def)
  have cat: "fst (derive_strengths_gaps ps) @ snd (derive_strengths_gaps ps) = map p0 ?s"
    unfolding st ga by (simp only: map_append [symmetric] append_take_drop_id)
  have m: "mset (map p0 ?s) = mset (map p0 ps)"
    by (simp add: sorted_py_mset)
  have d: "distinct (map p0 ?s)" if "distinct (map p0 ps)"
    using that m by (metis mset_eq_imp_distinct_iff)
  have "length (fst (derive_strengths_gaps ps)) = 2" using len by (simp add: st)
  moreover have "length (snd (derive_strengths_gaps ps)) = 3" using len by (simp add: ga)
  moreover have "mset (fst (derive_strengths_gaps ps) @ snd (derive_strengths_gaps ps)) = mset (map p0 ps)"
    using cat m by simp
  moreover have "distinct (map p0 ps) \<longrightarrow>
            set (fst (derive_strengths_gaps ps)) \<inter> set (snd (derive_strengths_gaps ps)) = {}
          \<and> distinct (fst (derive_strengths_gaps ps) @ snd (derive_strengths_gaps ps))"
  proof
    assume "distinct (map p0 ps)"
    then have "distinct (fst (derive_strengths_gaps ps) @ snd (derive_strengths_gaps ps))"
      using d cat by simp
    then show "set (fst (derive_strengths_gaps ps)) \<inter> set (snd (derive_strengths_gaps ps)) = {}
          \<and> distinct (fst (derive_strengths_gaps ps) @ snd (derive_strengths_gaps ps))"
      by simp
  qed
  ultimately show ?thesis by blast
qed

text \<open>The statement at the scenario scores, where C and D tie at 60 and B and E at 20.\<close>

theorem strengths_gaps_split_five_witness:
  "length scenario_scores = 5 \<and> distinct (map p0 scenario_scores)
   \<and> set (fst (derive_strengths_gaps scenario_scores))
         \<inter> set (snd (derive_strengths_gaps scenario_scores)) = {}
   \<and> mset (fst (derive_strengths_gaps scenario_scores) @ snd (derive_strengths_gaps scenario_scores))
       = mset (map p0 scenario_scores)"
proof -
  have h: "length scenario_scores = 5" by (simp add: scenario_scores_def)
  have d: "distinct (map p0 scenario_scores)" by (simp add: scenario_scores_def)
  from strengths_gaps_split_five [OF h] h d show ?thesis by blast
qed

text \<open>
  Claim C10. For every list of pillar scores whose names all come from the catalog, the
  fallback text is never produced: each returned recommendation is the playbook entry of
  the pillar at the same position among the lowest-scoring pillars, taken in ascending
  order of score. There are min(3, n) recommendations, so 3 for the catalog's five pillars,
  and no pillar left out scores below a chosen one.
\<close>

theorem recommendations_from_playbook:
  assumes "\<forall>p\<in>set ps. p0 p \<in> fst ` set PILLARS"
  shows "list_all2 (\<lambda>r p. playbook (p0 p) = Some r) (recommend_actions ps) (lows ps)
       \<and> length (recommend_actions ps) = min 3 (length ps)
       \<and> sorted_wrt (\<lambda>a b. p1 a \<le> p1 b) (lows ps)
       \<and> (\<exists>rest. mset (lows ps @ rest) = mset ps
             \<and> (\<forall>a\<in>set (lows ps). \<forall>b\<in>set rest. p1 a \<le> p1 b))"
proof -
  let ?s = "sorted_py p1 False ps"
  have sub: "set (lows ps) \<subseteq> set ps"
  proof -
    have "set (lows ps) \<subseteq> set ?s" unfolding lows_def by (rule set_take_subset)
    also have "set ?s = set ps" by (simp add: sorted_py_def)
    finally show ?thesis .
  qed
  have get: "playbook (p0 p) = Some (playbook_get p)" if "p \<in> set (lows ps)" for p
  proof -
    from that sub assms have "p0 p \<in> fst ` set PILLARS" by blast
    then have "playbook (p0 p) \<noteq> None" by (rule playbook_catalog)
    then show ?thesis by (auto simp: playbook_get_def)
  qed
  have 1: "list_all2 (\<lambda>r p. playbook (p0 p) = Some r) (recommend_actions ps) (lows ps)"
    unfolding recommend_actions_def list_all2_map1 using get
    by (simp add: list_all2_same)
  have 2: "length (recommend_actions ps) = min 3 (length ps)"
    by (simp add: recommend_actions_def lows_def sorted_py_length)
  have sp: "sorted_wrt (\<lambda>a b. p1 a \<le> p1 b) (take 3 ?s)"
      "\<forall>a\<in>set (take 3 ?s). \<forall>b\<in>set (drop 3 ?s). p1 a \<le> p1 b"
    using sorted_wrt_split [OF sorted_py_ascending, of p1 3 ps] by simp_all
  have "mset (lows ps @ drop 3 ?s) = mset ps"
    by (simp add: lows_def sorted_py_mset)
  with sp(2) have 4: "\<exists>rest. mset (lows ps @ rest) = mset ps
             \<and> (\<forall>a\<in>set (lows ps). \<forall>b\<in>set rest. p1 a \<le> p1 b)"
    unfolding lows_def by blast
  from 1 2 sp(1) 4 show ?thesis by (simp add: lows_def)
qed

text \<open>The statement at the scenario scores: three recommendations, all from the playbook.\<close>

theorem recommendations_from_playbook_witness:
  "p0 ` set scenario_scores \<subseteq> fst ` set PILLARS
   \<and> list_all2 (\<lambda>r p. playbook (p0 p) = Some r)
        (recommend_actions scenario_scores) (lows scenario_scores)
   \<and> length (recommend_actions scenario_scores) = 3"
proof -
  have h: "\<forall>p\<in>set scenario_scores. p0 p \<in> fst ` set PILLARS"
    by (simp add: scenario_scores_def PILLARS_def)
  have l: "length scenario_scores = 5" by (simp add: scenario_scores_def)
  from h have sub: "p0 ` set scenario_scores \<subseteq> fst ` set PILLARS" by blast
  from recommendations_from_playbook [OF h] sub l show ?thesis by simp
qed

end
